theory Spec2Isabelle
  imports Main
begin

section \<open>The reflection model\<close>

text \<open>
  The documentation graph is held arena style: every Reflection object lives in one store
  and is named by its identity; \<open>parent\<close>, the signature slots and the resolved target of a
  reference type are identities into that store.  JavaScript arrays that the code builds or
  grows in place (the signature lists) live in a second store, so that sharing between an
  array held by a reflection and an array returned by a method stays visible.
\<close>

type_synonym rid = nat
type_synonym aref = nat

text \<open>
  Modelled from the spec: the \<open>ReflectionKind\<close> enumeration.  Its declaration is not among
  the sources; the members are the ones the data model lists, and \<open>ClassOrInterface\<close> is the
  mask \<open>Class | Interface\<close> that \<open>scope.kind & ReflectionKind.ClassOrInterface\<close> tests.
\<close>

datatype ReflectionKind =
    Project | Module | Namespace | Class | Interface | Enum | EnumMember | Variable
  | Function | Method | Property | Accessor | Constructor | CallSignature | GetSignature
  | SetSignature | IndexSignature | Parameter | TypeParameter | TypeAlias | Constant

definition ClassOrInterface :: "ReflectionKind \<Rightarrow> bool" where
  "ClassOrInterface k = (k = Class \<or> k = Interface)"

text \<open>
  Modelled from the spec: the Type value model, whose classes are not among the sources.
  \<open>ReferenceType\<close> carries the symbol name, the type arguments and the lazily resolved
  target reflection (unset while the reference is unresolved); \<open>ReflectionType\<close> carries
  its inline declaration.
\<close>

datatype Type =
    IntrinsicType string
  | ReferenceType string "Type list" "rid option"
  | ReflectionType rid
  | UnionType "Type list"
  | IntersectionType "Type list"
  | ArrayType Type
  | TupleType "Type list"
  | TypeParameterType string
  | UnknownType string

text \<open>
  Reading the property \<open>reflection\<close> of a type object: only a reference type has it, and
  only once resolved; on every other type object the read yields \<open>undefined\<close>.
\<close>

fun reflection_of :: "Type \<Rightarrow> rid option" where
  "reflection_of (ReferenceType n targs r) = r"
| "reflection_of t = None"

text \<open>The interface \<open>DeclarationHierarchy\<close>: a linked chain of layers.\<close>

datatype DeclarationHierarchy =
  Hierarchy (types: "Type list") (next_h: "DeclarationHierarchy option") (isTarget: "bool option")

text \<open>
  Modelled from the spec: the flags and the comment of a reflection (a summary text and a
  tag list), whose classes are not among the sources.
\<close>

record ReflectionFlags =
  isExported :: bool
  isPrivate :: bool
  isProtected :: bool
  isPublic :: bool
  isStatic :: bool
  isAbstract :: bool
  isOptional :: bool
  isRest :: bool
  isExternal :: bool

record Comment =
  summary :: string
  tags :: "string list"

datatype ReflectionClass =
    ProjectReflection | ContainerReflection | DeclarationReflection
  | SignatureReflection | ParameterReflection | TypeParameterReflection

text \<open>
  One object of the graph.  \<open>cls\<close> is the class the object was created from (what
  \<open>instanceof\<close> and method dispatch look at).  The fields up to \<open>cssClasses\<close> are those of
  the base classes \<open>Reflection\<close> and \<open>ContainerReflection\<close>, declared in other files, that the
  code reads (\<open>id_r\<close> is the field \<open>id\<close>); the rest are the fields that
  \<open>DeclarationReflection\<close> declares, in its order.  An optional field that is unset is
  \<open>None\<close>.  The signature list is held by reference, the other arrays by value: only the
  signature list meets code that builds and grows arrays.
\<close>

record Reflection =
  cls :: ReflectionClass
  id_r :: nat
  name :: string
  kind :: ReflectionKind
  flags :: ReflectionFlags
  comment :: "Comment option"
  parent :: "rid option"
  children :: "rid list option"
  url :: "string option"
  cssClasses :: "string option"
  type :: "Type option"
  typeParameters :: "rid list option"
  signatures :: "aref option"
  indexSignature :: "rid option"
  getSignature :: "rid option"
  setSignature :: "rid option"
  defaultValue :: "string option"
  overwrites :: "Type option"
  inheritedFrom :: "Type option"
  implementationOf :: "Type option"
  extendedTypes :: "Type list option"
  extendedBy :: "Type list option"
  implementedTypes :: "Type list option"
  implementedBy :: "Type list option"
  typeHierarchy :: "DeclarationHierarchy option"

text \<open>
  The state of one run: the object store, the array store with its allocation mark, and the
  converter's bookkeeping (next id, symbol map, current scope).
\<close>

record State =
  objects :: "rid \<Rightarrow> Reflection"
  arrays :: "aref \<Rightarrow> rid list"
  nextArray :: aref
  nextId :: nat
  symbols :: "nat \<rightharpoonup> rid"
  scope :: rid

subsection \<open>JavaScript arrays\<close>

text \<open>The literal \<open>[]\<close>: a fresh, empty array.\<close>

definition new_array :: "State \<Rightarrow> aref \<times> State" where
  "new_array st =
     (nextArray st,
      st\<lparr>arrays := (arrays st)(nextArray st := []), nextArray := Suc (nextArray st)\<rparr>)"

text \<open>\<open>a.concat(b)\<close>: a fresh array holding the elements of \<open>a\<close>, then those of \<open>b\<close>.\<close>

definition array_concat :: "State \<Rightarrow> aref \<Rightarrow> aref \<Rightarrow> aref \<times> State" where
  "array_concat st a b =
     (nextArray st,
      st\<lparr>arrays := (arrays st)(nextArray st := arrays st a @ arrays st b),
         nextArray := Suc (nextArray st)\<rparr>)"

text \<open>\<open>a.push(x)\<close>: grows \<open>a\<close> in place.\<close>

definition array_push :: "State \<Rightarrow> aref \<Rightarrow> rid \<Rightarrow> State" where
  "array_push st a x = st\<lparr>arrays := (arrays st)(a := arrays st a @ [x])\<rparr>"

section \<open>DeclarationReflection.getAllSignatures\<close>

definition getAllSignatures :: "State \<Rightarrow> rid \<Rightarrow> aref \<times> State" where
  "getAllSignatures st this =
     (let (result, st) = new_array st;
          (result, st) = (case signatures (objects st this) of
                            Some sigs \<Rightarrow> array_concat st result sigs
                          | None \<Rightarrow> (result, st));
          st = (case indexSignature (objects st this) of
                  Some s \<Rightarrow> array_push st result s
                | None \<Rightarrow> st);
          st = (case getSignature (objects st this) of
                  Some s \<Rightarrow> array_push st result s
                | None \<Rightarrow> st);
          st = (case setSignature (objects st this) of
                  Some s \<Rightarrow> array_push st result s
                | None \<Rightarrow> st)
      in (result, st))"

text \<open>An optional slot as the list of what it holds.\<close>

definition slot :: "'a option \<Rightarrow> 'a list" where
  "slot x = (case x of None \<Rightarrow> [] | Some v \<Rightarrow> [v])"

text \<open>
  The arrays allocated so far lie below the allocation mark; a reflection's signature list
  is one of them.
\<close>

definition signatures_allocated :: "State \<Rightarrow> rid \<Rightarrow> bool" where
  "signatures_allocated st this =
     (case signatures (objects st this) of None \<Rightarrow> True | Some a \<Rightarrow> a < nextArray st)"

section \<open>DeclarationReflection.toObject\<close>

text \<open>
  The raw object representation: a JSON-like value.  An object is the list of its own
  properties in insertion order; a member of an enumeration is written by its member.
\<close>

datatype jval =
    JNull
  | JBool bool
  | JNum int
  | JStr string
  | JEnum ReflectionKind
  | JArr "jval list"
  | JObj "(string \<times> jval) list"

type_synonym jobj = "(string \<times> jval) list"

text \<open>\<open>result.k = v\<close>: replaces the property in place when present, appends it otherwise.\<close>

fun set_prop :: "string \<Rightarrow> jval \<Rightarrow> jobj \<Rightarrow> jobj" where
  "set_prop k v [] = [(k, v)]"
| "set_prop k v ((k', v') # ps) =
     (if k' = k then (k, v) # ps else (k', v') # set_prop k v ps)"

text \<open>Reading a property; \<open>None\<close> when the object has no such key.\<close>

fun get_prop :: "string \<Rightarrow> jobj \<Rightarrow> jval option" where
  "get_prop k [] = None"
| "get_prop k ((k', v') # ps) = (if k' = k then Some v' else get_prop k ps)"

definition has_key :: "string \<Rightarrow> jobj \<Rightarrow> bool" where
  "has_key k obj = (get_prop k obj \<noteq> None)"

text \<open>
  \<open>if (x) { ... }\<close> for an optional field holding an object or an array: such a value is
  truthy whenever the field is set (an empty array included).
\<close>

definition if_set :: "'a option \<Rightarrow> ('a \<Rightarrow> 's \<Rightarrow> 's) \<Rightarrow> 's \<Rightarrow> 's" where
  "if_set x f s = (case x of None \<Rightarrow> s | Some v \<Rightarrow> f v s)"

text \<open>
  \<open>if (x) { ... }\<close> for an optional string: the empty string is falsy, as \<open>undefined\<close> is.
\<close>

definition if_string :: "string option \<Rightarrow> (string \<Rightarrow> 's \<Rightarrow> 's) \<Rightarrow> 's \<Rightarrow> 's" where
  "if_string x f s = (case x of None \<Rightarrow> s | Some v \<Rightarrow> if v = [] then s else f v s)"

text \<open>
  The methods that \<open>toObject\<close> calls and that are defined in other files: the inherited
  \<open>super.toObject()\<close> of the reflection and \<open>Type.toObject()\<close>.
\<close>

record Serializers =
  super_toObject :: "State \<Rightarrow> rid \<Rightarrow> jobj"
  Type_toObject :: "Type \<Rightarrow> jval"

definition toObject :: "Serializers \<Rightarrow> State \<Rightarrow> rid \<Rightarrow> jobj" where
  "toObject S st this =
     (let self = objects st this;
          result = super_toObject S st this;
          result = if_set (type self) (\<lambda>t. set_prop ''type'' (Type_toObject S t)) result;
          result = if_string (defaultValue self)
                     (\<lambda>v. set_prop ''defaultValue'' (JStr v)) result;
          result = if_set (overwrites self)
                     (\<lambda>t. set_prop ''overwrites'' (Type_toObject S t)) result;
          result = if_set (inheritedFrom self)
                     (\<lambda>t. set_prop ''inheritedFrom'' (Type_toObject S t)) result;
          result = if_set (extendedTypes self)
                     (\<lambda>ts. set_prop ''extendedTypes'' (JArr (map (Type_toObject S) ts))) result;
          result = if_set (extendedBy self)
                     (\<lambda>ts. set_prop ''extendedBy'' (JArr (map (Type_toObject S) ts))) result;
          result = if_set (implementedTypes self)
                     (\<lambda>ts. set_prop ''implementedTypes'' (JArr (map (Type_toObject S) ts))) result;
          result = if_set (implementedBy self)
                     (\<lambda>ts. set_prop ''implementedBy'' (JArr (map (Type_toObject S) ts))) result;
          result = if_set (implementationOf self)
                     (\<lambda>t. set_prop ''implementationOf'' (Type_toObject S t)) result
      in result)"

text \<open>The nine keys that \<open>DeclarationReflection.toObject\<close> itself writes.\<close>

definition declaration_keys :: "string list" where
  "declaration_keys =
     [''type'', ''defaultValue'', ''overwrites'', ''inheritedFrom'', ''extendedTypes'',
      ''extendedBy'', ''implementedTypes'', ''implementedBy'', ''implementationOf'']"

text \<open>The inherited serializer leaves the nine keys to the subclass.\<close>

definition base_leaves_keys :: "Serializers \<Rightarrow> State \<Rightarrow> rid \<Rightarrow> bool" where
  "base_leaves_keys S st this =
     list_all (\<lambda>k. \<not> has_key k (super_toObject S st this)) declaration_keys"

text \<open>The serialized flags (those that are set) and the serialized comment.\<close>

definition flags_toObject :: "ReflectionFlags \<Rightarrow> jval" where
  "flags_toObject f =
     JObj (map (\<lambda>(k, b). (k, JBool b))
       (filter snd
          [(''isExported'', isExported f), (''isPrivate'', isPrivate f),
           (''isProtected'', isProtected f), (''isPublic'', isPublic f),
           (''isStatic'', isStatic f), (''isAbstract'', isAbstract f),
           (''isOptional'', isOptional f), (''isRest'', isRest f),
           (''isExternal'', isExternal f)]))"

definition Comment_toObject :: "Comment \<Rightarrow> jval" where
  "Comment_toObject c =
     JObj [(''summary'', JStr (summary c)), (''tags'', JArr (map JStr (tags c)))]"

text \<open>
  Modelled from the spec: the inherited \<open>Reflection.toObject\<close>, whose code is not among the
  sources.  It writes the part of the exposed schema that every reflection has: \<open>id\<close>,
  \<open>name\<close>, \<open>kind\<close>, \<open>flags\<close>, and \<open>comment\<close>, \<open>children\<close>, \<open>signatures\<close> and \<open>typeParameters\<close>
  when the reflection has them.  \<open>nested\<close> is the serialized form of a nested reflection.
\<close>

definition spec_Reflection_toObject :: "(rid \<Rightarrow> jval) \<Rightarrow> State \<Rightarrow> rid \<Rightarrow> jobj" where
  "spec_Reflection_toObject nested st this =
     (let self = objects st this;
          result = [(''id'', JNum (int (id_r self))), (''name'', JStr (name self)),
                    (''kind'', JEnum (kind self)), (''flags'', flags_toObject (flags self))];
          result = if_set (comment self) (\<lambda>c. set_prop ''comment'' (Comment_toObject c)) result;
          result = if_set (children self)
                     (\<lambda>cs. set_prop ''children'' (JArr (map nested cs))) result;
          result = if_set (signatures self)
                     (\<lambda>a. set_prop ''signatures'' (JArr (map nested (arrays st a)))) result;
          result = if_set (typeParameters self)
                     (\<lambda>ps. set_prop ''typeParameters'' (JArr (map nested ps))) result
      in result)"

text \<open>
  Modelled from the spec: the serializers with the inherited method as above;
  \<open>Type.toObject\<close> stays a parameter.
\<close>

definition spec_Serializers :: "(rid \<Rightarrow> jval) \<Rightarrow> (Type \<Rightarrow> jval) \<Rightarrow> Serializers" where
  "spec_Serializers nested type_toObject =
     \<lparr>super_toObject = spec_Reflection_toObject nested, Type_toObject = type_toObject\<rparr>"

text \<open>
  The basic shape of a reflection: its name, its kind and the number of its signatures;
  read off the graph, and re-derived from a serialized object.
\<close>

type_synonym shape = "string \<times> ReflectionKind \<times> nat"

definition shape_of :: "State \<Rightarrow> rid \<Rightarrow> shape" where
  "shape_of st r =
     (name (objects st r), kind (objects st r),
      (case signatures (objects st r) of None \<Rightarrow> 0 | Some a \<Rightarrow> length (arrays st a)))"

definition shape_of_object :: "jobj \<Rightarrow> shape option" where
  "shape_of_object obj =
     (case get_prop ''name'' obj of
        Some (JStr n) \<Rightarrow>
          (case get_prop ''kind'' obj of
             Some (JEnum k) \<Rightarrow>
               (case get_prop ''signatures'' obj of
                  None \<Rightarrow> Some (n, k, 0)
                | Some (JArr xs) \<Rightarrow> Some (n, k, length xs)
                | Some other \<Rightarrow> None)
           | other \<Rightarrow> None)
      | other \<Rightarrow> None)"

text \<open>
  The call \<open>r.toObject()\<close> on any reflection: a \<open>DeclarationReflection\<close> answers with its own
  method, a reflection of another class with the inherited one.  Serializing a graph
  serializes every reflection of the project's index, in index order.
\<close>

definition call_toObject :: "Serializers \<Rightarrow> State \<Rightarrow> rid \<Rightarrow> jobj" where
  "call_toObject S st r =
     (if cls (objects st r) = DeclarationReflection then toObject S st r
      else super_toObject S st r)"

definition serialize_graph :: "Serializers \<Rightarrow> State \<Rightarrow> rid list \<Rightarrow> jobj list" where
  "serialize_graph S st rs = map (call_toObject S st) rs"

section \<open>DeclarationReflection.findReflectionByName\<close>

text \<open>
  A call either faults (a property read on \<open>undefined\<close> throws a \<open>TypeError\<close>) or returns:
  \<open>Inr None\<close> is \<open>undefined\<close> or \<open>null\<close>, \<open>Inr (Some r)\<close> the reflection found.
\<close>

datatype error = TypeError

type_synonym outcome = "error + rid option"

text \<open>
  \<open>names\<close> is one JavaScript array, handed as it is to every callee, and a callee may
  change it in place (a lookup that pops the last name does).  So a call takes the contents
  of the array and gives them back as the call has left them, next to its outcome.  The
  recursion follows references through the graph and may not end on a cyclic one, so the
  functions take fuel: \<open>None\<close> says that the call did not return within it.
\<close>

type_synonym search = "(outcome \<times> string list) option"

type_synonym found = "outcome option"

text \<open>The argument \<open>arg\<close>: one dotted name, or the name hierarchy already split.\<close>

datatype name_arg = Dotted string | Names "string list"

text \<open>\<open>s.split('.')\<close>: the pieces between the separators; never the empty list.\<close>

fun split_at :: "char \<Rightarrow> string \<Rightarrow> string list" where
  "split_at c [] = [[]]"
| "split_at c (x # xs) =
     (if x = c then [] # split_at c xs
      else (case split_at c xs of
              w # ws \<Rightarrow> (x # w) # ws
            | [] \<Rightarrow> [[x]]))"

definition names_of :: "name_arg \<Rightarrow> string list" where
  "names_of arg = (case arg of Names ns \<Rightarrow> ns | Dotted s \<Rightarrow> split_at CHR ''.'' s)"

text \<open>
  The methods of the base classes that \<open>findReflectionByName\<close> calls and that are defined
  in other files: \<open>getChildByName\<close> on the receiver, and the inherited
  \<open>findReflectionByName\<close> that a receiver of another class than \<open>DeclarationReflection\<close>
  (the project, for one) answers with.  Each is handed the array \<open>names\<close> and gives back, with
  its result, the contents it leaves in the array.
\<close>

record Lookup =
  getChildByName :: "rid \<Rightarrow> string list \<Rightarrow> rid option \<times> string list"
  Reflection_findReflectionByName :: "rid \<Rightarrow> string list \<Rightarrow> outcome \<times> string list"

text \<open>
  \<open>findReflectionByName n L g this names searchUp\<close> is the method on a receiver \<open>this\<close> of
  class \<open>DeclarationReflection\<close> in the graph \<open>g\<close>, with fuel \<open>n\<close>, called with the array
  \<open>names\<close> (an array argument is used as it is, not copied); \<open>walkTypeParents\<close> is its local
  function, which hands on what the first parent's search returns, or \<open>null\<close>; and
  \<open>call_findReflectionByName\<close> is the call \<open>r.findReflectionByName(names, searchUp)\<close> on
  any receiver, dispatched on the receiver's class.  Every later step sees \<open>names\<close> as the
  earlier callees have left it.  Reading \<open>parents[0]\<close> of an empty array gives \<open>undefined\<close>,
  and reading \<open>reflection\<close> of that throws.
\<close>

fun findReflectionByName ::
      "nat \<Rightarrow> Lookup \<Rightarrow> (rid \<Rightarrow> Reflection) \<Rightarrow> rid \<Rightarrow> string list \<Rightarrow> bool \<Rightarrow> search"
  and walkTypeParents ::
      "nat \<Rightarrow> Lookup \<Rightarrow> (rid \<Rightarrow> Reflection) \<Rightarrow> rid \<Rightarrow> string list \<Rightarrow> bool \<Rightarrow> search"
  and call_findReflectionByName ::
      "nat \<Rightarrow> Lookup \<Rightarrow> (rid \<Rightarrow> Reflection) \<Rightarrow> rid \<Rightarrow> string list \<Rightarrow> bool \<Rightarrow> search"
where
  "findReflectionByName 0 L g this names searchUp = None"
| "findReflectionByName (Suc n) L g this names searchUp =
     (case getChildByName L this names of
        (Some reflection, names) \<Rightarrow> Some (Inr (Some reflection), names)
      | (None, names) \<Rightarrow>
          (case (if searchUp \<and> extendedTypes (g this) \<noteq> None
                 then walkTypeParents n L g this names searchUp
                 else Some (Inr None, names)) of
             None \<Rightarrow> None
           | Some (Inl e, names) \<Rightarrow> Some (Inl e, names)
           | Some (Inr (Some inheritedReflection), names) \<Rightarrow>
               Some (Inr (Some inheritedReflection), names)
           | Some (Inr None, names) \<Rightarrow>
               (case parent (g this) of
                  None \<Rightarrow> Some (Inr None, names)
                | Some p \<Rightarrow> call_findReflectionByName n L g p names False)))"
| "walkTypeParents n L g child names searchUp =
     (case extendedTypes (g child) of
        None \<Rightarrow> Some (Inr None, names)
      | Some parents \<Rightarrow>
          (case parents of
             [] \<Rightarrow> Some (Inl TypeError, names)
           | firstParent # rest \<Rightarrow>
               (case reflection_of firstParent of
                  None \<Rightarrow> Some (Inr None, names)
                | Some parentReflection \<Rightarrow>
                    call_findReflectionByName n L g parentReflection names searchUp)))"
| "call_findReflectionByName n L g r names searchUp =
     (if cls (g r) = DeclarationReflection
      then findReflectionByName n L g r names searchUp
      else Some (Reflection_findReflectionByName L r names))"

text \<open>
  The public entry \<open>this.findReflectionByName(arg, searchUp)\<close>, for what it returns or
  throws.
\<close>

definition findReflectionByName_arg ::
    "nat \<Rightarrow> Lookup \<Rightarrow> (rid \<Rightarrow> Reflection) \<Rightarrow> rid \<Rightarrow> name_arg \<Rightarrow> bool \<Rightarrow> found" where
  "findReflectionByName_arg n L g this arg searchUp =
     map_option fst (findReflectionByName n L g this (names_of arg) searchUp)"

text \<open>
  What \<open>findReflectionByName\<close> reads of a reflection's \<open>extendedTypes\<close>: whether the field
  is set, whether the array has a first entry, and the \<open>reflection\<close> of that entry.
\<close>

definition extended_head :: "Reflection \<Rightarrow> rid option option option" where
  "extended_head r =
     map_option (\<lambda>ps. case ps of [] \<Rightarrow> None | p # rest \<Rightarrow> Some (reflection_of p))
       (extendedTypes r)"

text \<open>
  Two graphs with the same classes and parents and, when \<open>searchUp\<close> holds, the same first
  extended type on every reflection.
\<close>

definition same_links :: "bool \<Rightarrow> (rid \<Rightarrow> Reflection) \<Rightarrow> (rid \<Rightarrow> Reflection) \<Rightarrow> bool" where
  "same_links searchUp g g' =
     (\<forall>r. cls (g' r) = cls (g r) \<and> parent (g' r) = parent (g r) \<and>
          (searchUp \<longrightarrow> extended_head (g' r) = extended_head (g r)))"

section \<open>The identity registry and the scope context\<close>

text \<open>No flag set.\<close>

definition no_flags :: ReflectionFlags where
  "no_flags = \<lparr>isExported = False, isPrivate = False, isProtected = False, isPublic = False,
      isStatic = False, isAbstract = False, isOptional = False, isRest = False,
      isExternal = False\<rparr>"

text \<open>
  Modelled from the spec: the constructor \<open>new C(name, kind, parent)\<close> of a reflection
  class, which is not among the sources.  Every optional field is unset and every flag
  clear; the id is assigned by the registry.
\<close>

definition new_Reflection ::
    "ReflectionClass \<Rightarrow> string \<Rightarrow> ReflectionKind \<Rightarrow> rid option \<Rightarrow> Reflection" where
  "new_Reflection c n k p =
     \<lparr>cls = c, id_r = 0, name = n, kind = k, flags = no_flags, comment = None, parent = p,
      children = None, url = None, cssClasses = None, type = None, typeParameters = None,
      signatures = None, indexSignature = None, getSignature = None, setSignature = None,
      defaultValue = None, overwrites = None, inheritedFrom = None, implementationOf = None,
      extendedTypes = None, extendedBy = None, implementedTypes = None, implementedBy = None,
      typeHierarchy = None\<rparr>"

text \<open>A field write \<open>r.f = v\<close> on the object \<open>r\<close>.\<close>

definition update_object :: "State \<Rightarrow> rid \<Rightarrow> (Reflection \<Rightarrow> Reflection) \<Rightarrow> State" where
  "update_object st r f = st\<lparr>objects := (objects st)(r := f (objects st r))\<rparr>"

text \<open>
  Modelled from the spec: \<open>allocate\<close> of the Identity Registry, whose code is not among the
  sources.  It assigns the next integer and records id -> reflection.
\<close>

definition allocate :: "State \<Rightarrow> Reflection \<Rightarrow> nat \<times> State" where
  "allocate st r =
     (nextId st,
      st\<lparr>objects := (objects st)(nextId st := r\<lparr>id_r := nextId st\<rparr>),
         nextId := Suc (nextId st)\<rparr>)"

text \<open>
  Modelled from the spec: \<open>registerSymbol\<close> and \<open>lookupSymbol\<close> of the Identity Registry,
  the symbol identity -> reflection map that merge decisions read.
\<close>

definition registerSymbol :: "State \<Rightarrow> nat \<Rightarrow> rid \<Rightarrow> State" where
  "registerSymbol st symbol r = st\<lparr>symbols := (symbols st)(symbol \<mapsto> r)\<rparr>"

definition lookupSymbol :: "State \<Rightarrow> nat \<Rightarrow> rid option" where
  "lookupSymbol st symbol = symbols st symbol"

text \<open>One run's allocations, in creation order, with the ids they were given.\<close>

fun allocate_all :: "State \<Rightarrow> Reflection list \<Rightarrow> nat list \<times> State" where
  "allocate_all st [] = ([], st)"
| "allocate_all st (r # rs) =
     (let (i, st1) = allocate st r;
          (ids, st2) = allocate_all st1 rs
      in (i # ids, st2))"

text \<open>
  Modelled from the spec: \<open>Context.withScope\<close>, whose code is not among the sources.  It
  makes the reflection the current scope, runs the body and restores the previous scope.
  With no reflection (the node produced none) there is nothing to enter and the body is
  not run: a node that cannot be converted is skipped, never fatal.
\<close>

definition withScope :: "State \<Rightarrow> rid option \<Rightarrow> (rid \<Rightarrow> State \<Rightarrow> State) \<Rightarrow> State" where
  "withScope st r body =
     (case r of
        None \<Rightarrow> st
      | Some d \<Rightarrow> (let saved = scope st; st1 = body d (st\<lparr>scope := d\<rparr>) in st1\<lparr>scope := saved\<rparr>))"

section \<open>AccessorConverter.convert\<close>

text \<open>
  Modelled from the spec: a node of the front end, by the capabilities the converter
  consumes (\<open>kindOf\<close>, \<open>nameOf\<close>, \<open>symbolOf\<close>, \<open>commentOf\<close>, \<open>typeOf\<close>).  Of the syntax kinds
  only the two that the converter supports are told apart.
\<close>

datatype SyntaxKind = GetAccessor | SetAccessor | OtherSyntaxKind

record Node =
  kindOf :: SyntaxKind
  nameOf :: string
  symbolOf :: "nat option"
  commentOf :: "Comment option"
  typeOf :: "Type option"

text \<open>\<open>supports\<close>: the syntax kinds the converter is registered for.\<close>

definition supports :: "SyntaxKind list" where
  "supports = [GetAccessor, SetAccessor]"

text \<open>Modelled from the spec: \<open>Comment.hasTag\<close>, a lookup in the comment's tag list.\<close>

definition hasTag :: "Comment \<Rightarrow> string \<Rightarrow> bool" where
  "hasTag c t = (t \<in> set (tags c))"

text \<open>
  The factory functions and the type converter that \<open>convert\<close> calls and that are defined
  in other files.  Each may change the state it is given.
\<close>

record Factories =
  createComment :: "Node \<Rightarrow> Comment option"
  createDeclaration :: "State \<Rightarrow> Node \<Rightarrow> ReflectionKind \<Rightarrow> rid option \<times> State"
  createSignature :: "State \<Rightarrow> Node \<Rightarrow> string \<Rightarrow> ReflectionKind \<Rightarrow> rid \<times> State"
  convertType :: "State \<Rightarrow> Node \<Rightarrow> Type option"

text \<open>The kind chosen for the declaration: \<open>Constant\<close> for a \<open>@constant\<close> accessor of a class
  or interface, \<open>Accessor\<close> otherwise.\<close>

definition accessor_kind :: "Factories \<Rightarrow> State \<Rightarrow> Node \<Rightarrow> ReflectionKind" where
  "accessor_kind F context node =
     (let comment' = createComment F node;
          scope' = objects context (scope context)
      in if ClassOrInterface (kind scope')
            \<and> (case comment' of None \<Rightarrow> False | Some c \<Rightarrow> hasTag c ''constant'')
         then Constant else Accessor)"

definition convert :: "Factories \<Rightarrow> State \<Rightarrow> Node \<Rightarrow> rid option \<times> State" where
  "convert F context node =
     (let kind' = accessor_kind F context node;
          (declaration, context) = createDeclaration F context node kind';
          context = withScope context declaration (\<lambda>d context.
            if kind' = Constant
            then update_object context d (\<lambda>r. r\<lparr>type := convertType F context node\<rparr>)
            else if kindOf node = GetAccessor
            then (let (s, context) = createSignature F context node ''__get'' GetSignature
                  in update_object context d (\<lambda>r. r\<lparr>getSignature := Some s\<rparr>))
            else (let (s, context) = createSignature F context node ''__set'' SetSignature
                  in update_object context d (\<lambda>r. r\<lparr>setSignature := Some s\<rparr>)))
      in (declaration, context))"

text \<open>Appending a child to a container's \<open>children\<close>, creating the list when unset.\<close>

definition append_child :: "State \<Rightarrow> rid \<Rightarrow> rid \<Rightarrow> State" where
  "append_child st p c =
     update_object st p
       (\<lambda>r. r\<lparr>children := Some ((case children r of None \<Rightarrow> [] | Some cs \<Rightarrow> cs) @ [c])\<rparr>)"

text \<open>
  Modelled from the spec: \<open>createDeclaration\<close>, whose code is not among the sources.  It
  creates or fetches the Declaration of the node's symbol: a node without a resolvable
  symbol produces no reflection; a symbol already registered gives back its Declaration;
  otherwise a new Declaration is allocated, registered for the symbol and appended to the
  children of the current scope.
\<close>

definition spec_createDeclaration ::
    "State \<Rightarrow> Node \<Rightarrow> ReflectionKind \<Rightarrow> rid option \<times> State" where
  "spec_createDeclaration st node k =
     (case symbolOf node of
        None \<Rightarrow> (None, st)
      | Some symbol \<Rightarrow>
          (case lookupSymbol st symbol of
             Some d \<Rightarrow> (Some d, st)
           | None \<Rightarrow>
               (let (d, st1) = allocate st
                       (new_Reflection DeclarationReflection (nameOf node) k (Some (scope st)));
                    st2 = registerSymbol st1 symbol d;
                    st3 = append_child st2 (scope st) d
                in (Some d, st3))))"

text \<open>
  Modelled from the spec: \<open>createSignature\<close>, whose code is not among the sources.  It
  converts the node into one Signature of the given name and kind, owned by the current
  scope.
\<close>

definition spec_createSignature ::
    "State \<Rightarrow> Node \<Rightarrow> string \<Rightarrow> ReflectionKind \<Rightarrow> rid \<times> State" where
  "spec_createSignature st node n k =
     allocate st (new_Reflection SignatureReflection n k (Some (scope st)))"

text \<open>
  Modelled from the spec: the factories as above, with \<open>createComment\<close> and \<open>convertType\<close>
  (not among the sources either) giving what the front end's \<open>commentOf\<close> and \<open>typeOf\<close>
  hold for the node.
\<close>

definition spec_Factories :: Factories where
  "spec_Factories =
     \<lparr>createComment = commentOf,
      createDeclaration = spec_createDeclaration,
      createSignature = spec_createSignature,
      convertType = (\<lambda>st node. typeOf node)\<rparr>"

section \<open>The type hierarchy\<close>

text \<open>
  Modelled from the spec: the Reference Resolver's computation of \<open>typeHierarchy\<close>, whose
  code is not among the sources.  It walks \<open>extendedTypes\<close> recursively and produces one
  layer per ancestor level, the farthest level first, followed by the layer of the
  originating declaration, which is flagged \<open>isTarget\<close> and ends the chain.  The walk follows
  references through the graph, so it takes fuel; \<open>None\<close> says that it did not end within it.
\<close>

definition extended_of :: "(rid \<Rightarrow> Reflection) \<Rightarrow> Type \<Rightarrow> Type list" where
  "extended_of g t =
     (case reflection_of t of
        None \<Rightarrow> []
      | Some r \<Rightarrow> (case extendedTypes (g r) of None \<Rightarrow> [] | Some ps \<Rightarrow> ps))"

fun ancestor_levels :: "nat \<Rightarrow> (rid \<Rightarrow> Reflection) \<Rightarrow> Type list \<Rightarrow> Type list list option" where
  "ancestor_levels n g [] = Some []"
| "ancestor_levels 0 g (t # ts) = None"
| "ancestor_levels (Suc n) g (t # ts) =
     map_option (\<lambda>above. above @ [t # ts])
       (ancestor_levels n g (concat (map (extended_of g) (t # ts))))"

text \<open>Linking the layers into a chain that ends in \<open>tail\<close>.\<close>

fun chain :: "Type list list \<Rightarrow> DeclarationHierarchy \<Rightarrow> DeclarationHierarchy" where
  "chain [] tail = tail"
| "chain (level # levels) tail = Hierarchy level (Some (chain levels tail)) None"

definition target_layer :: "(rid \<Rightarrow> Reflection) \<Rightarrow> rid \<Rightarrow> DeclarationHierarchy" where
  "target_layer g d = Hierarchy [ReferenceType (name (g d)) [] (Some d)] None (Some True)"

definition computeTypeHierarchy ::
    "nat \<Rightarrow> (rid \<Rightarrow> Reflection) \<Rightarrow> rid \<Rightarrow> DeclarationHierarchy option" where
  "computeTypeHierarchy n g d =
     map_option (\<lambda>levels. chain levels (target_layer g d))
       (ancestor_levels n g (case extendedTypes (g d) of None \<Rightarrow> [] | Some ps \<Rightarrow> ps))"

text \<open>The resolver's step for one declaration: compute the hierarchy and store it.\<close>

definition resolveTypeHierarchy :: "nat \<Rightarrow> State \<Rightarrow> rid \<Rightarrow> State option" where
  "resolveTypeHierarchy n st d =
     map_option (\<lambda>h. update_object st d (\<lambda>r. r\<lparr>typeHierarchy := Some h\<rparr>))
       (computeTypeHierarchy n (objects st) d)"

text \<open>The layers of a chain, first to last.\<close>

fun layers :: "DeclarationHierarchy \<Rightarrow> DeclarationHierarchy list" where
  "layers (Hierarchy ts None flag) = [Hierarchy ts None flag]"
| "layers (Hierarchy ts (Some rest) flag) = Hierarchy ts (Some rest) flag # layers rest"

definition is_target_layer :: "DeclarationHierarchy \<Rightarrow> bool" where
  "is_target_layer l = (isTarget l = Some True)"

text \<open>
  How deep below a rank a type sits: an entry without a resolved reflection is a leaf.
\<close>

definition depth_of :: "(rid \<Rightarrow> nat) \<Rightarrow> Type \<Rightarrow> nat" where
  "depth_of rank t = (case reflection_of t of None \<Rightarrow> 0 | Some p \<Rightarrow> Suc (rank p))"

section \<open>JavascriptIndexPlugin.onRendererBegin\<close>

text \<open>One row of the search index.\<close>

record Row =
  row_id :: nat
  row_kind :: ReflectionKind
  fullName :: string
  row_url :: string
  classes :: "string option"
  row_parent :: "string option"

text \<open>
  The event: the keys of \<open>event.project.reflections\<close> in enumeration order (each key names
  the reflection registered under it), and the output directory.
\<close>

record RendererEvent =
  project_reflections :: "rid list"
  outputDirectory :: string

text \<open>
  What the plugin calls and what is defined elsewhere: \<open>Reflection.getFullName\<close>, a method of
  the graph's objects, which is handed the state and hands it back; and the library
  functions \<open>JSON.stringify\<close> and \<open>Path.join\<close>.
\<close>

record Host =
  getFullName :: "State \<Rightarrow> rid \<Rightarrow> string \<times> State"
  stringify :: "Row list \<Rightarrow> string"
  path_join :: "string list \<Rightarrow> string"

text \<open>The file system that \<open>writeFile\<close> writes to: contents by file name.\<close>

type_synonym files = "string \<rightharpoonup> string"

text \<open>The loop over the reflections; \<open>rows\<close> is the list built so far.\<close>

fun index_rows :: "Host \<Rightarrow> State \<Rightarrow> rid list \<Rightarrow> Row list \<Rightarrow> Row list \<times> State" where
  "index_rows H st [] rows = (rows, st)"
| "index_rows H st (key # keys) rows =
     (let reflection = objects st key in
      if cls reflection \<noteq> DeclarationReflection then index_rows H st keys rows
      else
        (case url reflection of
           None \<Rightarrow> index_rows H st keys rows
         | Some u \<Rightarrow>
             if u = [] \<or> name reflection = [] \<or> isExternal (flags reflection)
                \<or> name reflection = []
             then index_rows H st keys rows
             else
               (let parent' = (case parent reflection of
                                 None \<Rightarrow> None
                               | Some p \<Rightarrow>
                                   if cls (objects st p) = ProjectReflection then None
                                   else Some p);
                    row = \<lparr>row_id = length rows, row_kind = kind reflection,
                           fullName = name reflection, row_url = u,
                           classes = cssClasses reflection, row_parent = None\<rparr>;
                    (row, st) = (case parent' of
                                   None \<Rightarrow> (row, st)
                                 | Some p \<Rightarrow>
                                     (let (full, st) = getFullName H st p
                                      in (row\<lparr>row_parent := Some full,
                                              fullName := full @ ''.'' @ name reflection\<rparr>,
                                          st)))
                in index_rows H st keys (rows @ [row]))))"

text \<open>
  The template literal of the file's contents: four lines, the later ones indented as in
  the source, with the serialized rows spliced in.
\<close>

definition line_break :: string where
  "line_break = CHR 0x0A # replicate 12 CHR '' ''"

definition search_data :: "string \<Rightarrow> string" where
  "search_data json =
     ''/* Copyright (C) 1998-2019 by Northwoods Software Corporation. All Rights Reserved. */''
     @ line_break @ ''var typedoc = typedoc || {};''
     @ line_break @ ''typedoc.search = typedoc.search || {};''
     @ line_break @ ''typedoc.search.data = '' @ json @ '';''"

definition onRendererBegin :: "Host \<Rightarrow> State \<times> files \<Rightarrow> RendererEvent \<Rightarrow> State \<times> files" where
  "onRendererBegin H world event =
     (let (st, fs) = world;
          (rows, st) = index_rows H st (project_reflections event) [];
          fileName = path_join H [outputDirectory event, ''assets'', ''js'', ''search.js''];
          data = search_data (stringify H rows)
      in (st, fs(fileName \<mapsto> data)))"

text \<open>\<open>getFullName\<close> is a query: it hands the state back as it got it.\<close>

definition getFullName_reads :: "Host \<Rightarrow> bool" where
  "getFullName_reads H = (\<forall>st r. snd (getFullName H st r) = st)"

section \<open>Example inputs\<close>

text \<open>
  A class \<open>Panel\<close> as the current scope of an otherwise empty run, and the accessor nodes of
  its property \<open>layout\<close>: a getter documented with \<open>@constant\<close>, a getter and a setter
  without a comment, all of one symbol.
\<close>

definition ex_objects :: "rid \<Rightarrow> Reflection" where
  "ex_objects =
     (\<lambda>r. new_Reflection ContainerReflection [] Project None)
       (0 := new_Reflection DeclarationReflection ''Panel'' Class None)"

definition ex_state :: State where
  "ex_state =
     \<lparr>objects = ex_objects, arrays = (\<lambda>a. []), nextArray = 0, nextId = 1,
      symbols = Map.empty, scope = 0\<rparr>"

definition ex_constant_getter :: Node where
  "ex_constant_getter =
     \<lparr>kindOf = GetAccessor, nameOf = ''layout'', symbolOf = Some 7,
      commentOf = Some \<lparr>summary = ''The layout.'', tags = [''constant'']\<rparr>,
      typeOf = Some (IntrinsicType ''number'')\<rparr>"

definition ex_getter :: Node where
  "ex_getter =
     \<lparr>kindOf = GetAccessor, nameOf = ''layout'', symbolOf = Some 7, commentOf = None,
      typeOf = Some (IntrinsicType ''number'')\<rparr>"

definition ex_setter :: Node where
  "ex_setter =
     \<lparr>kindOf = SetAccessor, nameOf = ''layout'', symbolOf = Some 7, commentOf = None,
      typeOf = Some (IntrinsicType ''number'')\<rparr>"

text \<open>
  A declaration with an overload list of two signatures and a getter, in a run whose array
  store holds that list.
\<close>

definition ex_sig_state :: State where
  "ex_sig_state =
     \<lparr>objects = (\<lambda>r. new_Reflection SignatureReflection [] CallSignature (Some 0))
         (0 := (new_Reflection DeclarationReflection ''f'' Function None)
                 \<lparr>signatures := Some 0, getSignature := Some 3\<rparr>),
      arrays = (\<lambda>a. [])(0 := [1, 2]), nextArray = 1, nextId = 4,
      symbols = Map.empty, scope = 0\<rparr>"

text \<open>
  A property whose default value is the empty text, and a variable with a type and an
  initializer; nested reflections are written by id and types by name.
\<close>

definition ex_nested :: "rid \<Rightarrow> jval" where
  "ex_nested r = JNum (int r)"

definition ex_Type_toObject :: "Type \<Rightarrow> jval" where
  "ex_Type_toObject t =
     (case t of
        IntrinsicType n \<Rightarrow> JObj [(''type'', JStr ''intrinsic''), (''name'', JStr n)]
      | other \<Rightarrow> JObj [(''type'', JStr ''unknown'')])"

definition ex_Serializers :: Serializers where
  "ex_Serializers = spec_Serializers ex_nested ex_Type_toObject"

definition ex_default_state :: State where
  "ex_default_state =
     \<lparr>objects = (\<lambda>r. new_Reflection ContainerReflection [] Project None)
         (0 := (new_Reflection DeclarationReflection ''label'' Property None)
                 \<lparr>defaultValue := Some []\<rparr>,
          1 := (new_Reflection DeclarationReflection ''count'' Variable None)
                 \<lparr>type := Some (IntrinsicType ''number''), defaultValue := Some ''1''\<rparr>),
      arrays = (\<lambda>a. []), nextArray = 0, nextId = 2, symbols = Map.empty, scope = 0\<rparr>"

text \<open>
  A project (object 0) with the classes \<open>Animal\<close> (1) and \<open>Dog\<close> (2) and the interface \<open>Pet\<close>
  (3); \<open>Dog\<close> extends \<open>Animal\<close> first and \<open>Pet\<close> second.  \<open>Animal\<close> has the member \<open>speak\<close> (4),
  \<open>Pet\<close> the member \<open>cuddle\<close> (5), \<open>Dog\<close> the member \<open>fetch\<close> (6).  The lookup of children
  leaves \<open>names\<close> alone; the project's lookup pops the last name off \<open>names\<close> and finds the
  top-level reflection of that name when no outer name is left.
\<close>

definition ex_graph :: "rid \<Rightarrow> Reflection" where
  "ex_graph =
     (\<lambda>r. new_Reflection DeclarationReflection [] Method None)
       (0 := new_Reflection ProjectReflection ''project'' Project None,
        1 := new_Reflection DeclarationReflection ''Animal'' Class (Some 0),
        2 := (new_Reflection DeclarationReflection ''Dog'' Class (Some 0))
               \<lparr>extendedTypes := Some [ReferenceType ''Animal'' [] (Some 1),
                                        ReferenceType ''Pet'' [] (Some 3)]\<rparr>,
        3 := new_Reflection DeclarationReflection ''Pet'' Interface (Some 0),
        4 := new_Reflection DeclarationReflection ''speak'' Method (Some 1),
        5 := new_Reflection DeclarationReflection ''cuddle'' Method (Some 3),
        6 := new_Reflection DeclarationReflection ''fetch'' Method (Some 2))"

definition ex_Lookup :: Lookup where
  "ex_Lookup =
     \<lparr>getChildByName = (\<lambda>r names.
          (if r = 1 \<and> names = [''speak''] then Some 4
           else if r = 3 \<and> names = [''cuddle''] then Some 5
           else if r = 2 \<and> names = [''fetch''] then Some 6
           else None,
           names)),
      Reflection_findReflectionByName = (\<lambda>r names.
          (case rev names of
             [] \<Rightarrow> (Inr None, [])
           | n # outer \<Rightarrow>
               (if outer = [] \<and> n = ''Animal'' then Inr (Some 1)
                else if outer = [] \<and> n = ''Dog'' then Inr (Some 2)
                else if outer = [] \<and> n = ''Pet'' then Inr (Some 3)
                else Inr None,
                rev outer)))\<rparr>"

text \<open>The same project with a class \<open>Dog\<close> whose \<open>extendedTypes\<close> is the empty array.\<close>

definition ex_empty_extends :: "rid \<Rightarrow> Reflection" where
  "ex_empty_extends =
     ex_graph (2 := (new_Reflection DeclarationReflection ''Dog'' Class (Some 0))
                      \<lparr>extendedTypes := Some []\<rparr>)"

text \<open>
  A rendered project: the project (0), a class \<open>Dog\<close> (1) with a page, and its method
  \<open>bark\<close> (2) with an anchor on that page.
\<close>

definition ex_rendered :: State where
  "ex_rendered =
     \<lparr>objects = (\<lambda>r. new_Reflection SignatureReflection [] CallSignature None)
         (0 := new_Reflection ProjectReflection ''project'' Project None,
          1 := (new_Reflection DeclarationReflection ''Dog'' Class (Some 0))
                 \<lparr>url := Some ''classes/dog.html''\<rparr>,
          2 := (new_Reflection DeclarationReflection ''bark'' Method (Some 1))
                 \<lparr>url := Some ''classes/dog.html#bark''\<rparr>),
      arrays = (\<lambda>a. []), nextArray = 0, nextId = 3, symbols = Map.empty, scope = 0\<rparr>"

definition ex_Host :: Host where
  "ex_Host =
     \<lparr>getFullName = (\<lambda>st r. (name (objects st r), st)),
      stringify = (\<lambda>rows. concat (map fullName rows)),
      path_join = (\<lambda>parts. concat (map (\<lambda>p. ''/'' @ p) parts))\<rparr>"

definition ex_event :: RendererEvent where
  "ex_event = \<lparr>project_reflections = [0, 1, 2], outputDirectory = ''docs''\<rparr>"

text \<open>Two variables created one after the other in the example run.\<close>

definition ex_created :: "Reflection list" where
  "ex_created =
     [new_Reflection DeclarationReflection ''a'' Variable (Some 0),
      new_Reflection DeclarationReflection ''b'' Variable (Some 0)]"

text \<open>
  The project of the classes above after conversion, with \<open>Puppy\<close> (7) extending \<open>Dog\<close>.
\<close>

definition ex_resolved :: State where
  "ex_resolved =
     \<lparr>objects = ex_graph
         (7 := (new_Reflection DeclarationReflection ''Puppy'' Class (Some 0))
                 \<lparr>extendedTypes := Some [ReferenceType ''Dog'' [] (Some 2)]\<rparr>),
      arrays = (\<lambda>a. []), nextArray = 0, nextId = 8, symbols = Map.empty, scope = 0\<rparr>"

section \<open>Properties of getAllSignatures\<close>

text \<open>
  Claim C9.  For every declaration, \<open>getAllSignatures\<close> returns an array holding exactly
  the stored signature list in its order, then the index signature, then the get
  signature, then the set signature, each of the three included exactly when it is set
  (so the empty list when nothing is set).  The call writes no object, and no array that
  existed before the call: the result is a fresh array, not the declaration's own list.
\<close>

theorem getAllSignatures_result:
  assumes "signatures_allocated st this"
  shows "case getAllSignatures st this of
           (result, st') \<Rightarrow>
             arrays st' result =
               (case signatures (objects st this) of None \<Rightarrow> [] | Some a \<Rightarrow> arrays st a)
                 @ slot (indexSignature (objects st this))
                 @ slot (getSignature (objects st this))
                 @ slot (setSignature (objects st this))
           \<and> objects st' = objects st
           \<and> (\<forall>a. a < nextArray st \<longrightarrow> arrays st' a = arrays st a)
           \<and> nextArray st \<le> result"
  using assms
  by (auto simp: getAllSignatures_def new_array_def array_concat_def array_push_def slot_def
      signatures_allocated_def split: option.splits)

theorem getAllSignatures_result_witness:
  "signatures_allocated ex_sig_state 0
   \<and> arrays (snd (getAllSignatures ex_sig_state 0)) (fst (getAllSignatures ex_sig_state 0))
       = [1, 2, 3]
   \<and> objects (snd (getAllSignatures ex_sig_state 0)) = objects ex_sig_state
   \<and> arrays (snd (getAllSignatures ex_sig_state 0)) 0 = [1, 2]"
proof -
  have h: "signatures_allocated ex_sig_state 0"
    by (simp add: signatures_allocated_def ex_sig_state_def new_Reflection_def)
  have v: "signatures (objects ex_sig_state 0) = Some 0"
    "indexSignature (objects ex_sig_state 0) = None"
    "getSignature (objects ex_sig_state 0) = Some 3"
    "setSignature (objects ex_sig_state 0) = None"
    "arrays ex_sig_state 0 = [1, 2]" "nextArray ex_sig_state = 1"
    by (simp_all add: ex_sig_state_def new_Reflection_def)
  from getAllSignatures_result [OF h] show ?thesis
    by (simp add: h v slot_def split: prod.splits)
qed

section \<open>Properties of AccessorConverter.convert\<close>

text \<open>
  Claim C1, as the code has it.  Whenever \<open>convert\<close> returns a declaration for an accessor
  node that is not converted as a constant (the scope is not a class or interface, or the
  comment does not carry the tag \<open>constant\<close>), converting a getter has set \<open>getSignature\<close>
  on the returned declaration and converting a setter has set \<open>setSignature\<close>, so at least
  one of the two is set.  This holds whatever the factory functions do.
\<close>

theorem convert_sets_accessor_signature:
  assumes "convert F context node = (Some d, context')"
    and "accessor_kind F context node \<noteq> Constant"
    and "kindOf node \<in> set supports"
  shows "(kindOf node = GetAccessor \<longrightarrow> getSignature (objects context' d) \<noteq> None)
       \<and> (kindOf node = SetAccessor \<longrightarrow> setSignature (objects context' d) \<noteq> None)
       \<and> (getSignature (objects context' d) \<noteq> None \<or> setSignature (objects context' d) \<noteq> None)"
  using assms
  by (auto simp: convert_def Let_def withScope_def update_object_def supports_def
      split: prod.splits if_splits)

text \<open>
  Claim C1 as stated fails: a getter of a class documented with \<open>@constant\<close> is converted
  to a declaration of kind \<open>Constant\<close> that holds a type and neither signature.
\<close>

theorem convert_constant_counterexample:
  "fst (convert spec_Factories ex_state ex_constant_getter) = Some 1
   \<and> kindOf ex_constant_getter = GetAccessor
   \<and> getSignature (objects (snd (convert spec_Factories ex_state ex_constant_getter)) 1) = None
   \<and> setSignature (objects (snd (convert spec_Factories ex_state ex_constant_getter)) 1) = None
   \<and> kind (objects (snd (convert spec_Factories ex_state ex_constant_getter)) 1) = Constant"
  by (simp add: convert_def accessor_kind_def spec_Factories_def spec_createDeclaration_def
      spec_createSignature_def lookupSymbol_def registerSymbol_def allocate_def
      append_child_def withScope_def update_object_def ex_state_def ex_objects_def
      ex_constant_getter_def new_Reflection_def ClassOrInterface_def hasTag_def Let_def)

theorem convert_sets_accessor_signature_witness:
  "convert spec_Factories ex_state ex_getter
     = (Some 1, snd (convert spec_Factories ex_state ex_getter))
   \<and> accessor_kind spec_Factories ex_state ex_getter \<noteq> Constant
   \<and> kindOf ex_getter \<in> set supports
   \<and> getSignature (objects (snd (convert spec_Factories ex_state ex_getter)) 1) \<noteq> None"
proof -
  have k: "accessor_kind spec_Factories ex_state ex_getter \<noteq> Constant"
    by (simp add: accessor_kind_def spec_Factories_def ex_getter_def)
  have c: "fst (convert spec_Factories ex_state ex_getter) = Some 1"
    using k
    by (simp add: convert_def spec_Factories_def spec_createDeclaration_def
        spec_createSignature_def lookupSymbol_def allocate_def withScope_def
        ex_state_def ex_getter_def Let_def split: prod.splits)
  then have h: "convert spec_Factories ex_state ex_getter
      = (Some 1, snd (convert spec_Factories ex_state ex_getter))"
    by (simp add: prod_eq_iff)
  have s: "kindOf ex_getter \<in> set supports"
    by (simp add: supports_def ex_getter_def)
  from convert_sets_accessor_signature [OF h k s] show ?thesis
    using h k s by (simp add: ex_getter_def)
qed

section \<open>Properties of toObject\<close>

lemma get_prop_set_prop:
  "get_prop k (set_prop k' v obj) = (if k = k' then Some v else get_prop k obj)"
  by (induction obj) auto

lemma get_prop_if_set:
  "get_prop k (if_set x (\<lambda>v. set_prop k' (f v)) obj) =
     (if k = k' then (case x of None \<Rightarrow> get_prop k obj | Some v \<Rightarrow> Some (f v))
      else get_prop k obj)"
  by (cases x) (simp_all add: if_set_def get_prop_set_prop)

lemma get_prop_if_string:
  "get_prop k (if_string x (\<lambda>v. set_prop k' (f v)) obj) =
     (if k = k' then (case x of None \<Rightarrow> get_prop k obj
                      | Some v \<Rightarrow> if v = [] then get_prop k obj else Some (f v))
      else get_prop k obj)"
  by (cases x) (simp_all add: if_string_def get_prop_set_prop)

lemma has_key_if_set:
  "has_key k (if_set x (\<lambda>v. set_prop k' (f v)) obj) = ((k = k' \<and> x \<noteq> None) \<or> has_key k obj)"
  by (cases x) (auto simp: has_key_def get_prop_if_set)

lemma has_key_if_string:
  "has_key k (if_string x (\<lambda>v. set_prop k' (f v)) obj) =
     ((k = k' \<and> (\<exists>v. x = Some v \<and> v \<noteq> [])) \<or> has_key k obj)"
  by (cases x) (auto simp: has_key_def get_prop_if_string)

lemmas has_key_toObject = toObject_def Let_def has_key_if_set has_key_if_string

text \<open>Every key but the nine is handed on from the inherited serializer untouched.\<close>

lemma toObject_other_keys:
  "k \<notin> set declaration_keys \<Longrightarrow>
     get_prop k (toObject S st this) = get_prop k (super_toObject S st this)"
  by (simp add: toObject_def Let_def declaration_keys_def get_prop_if_set get_prop_if_string)

text \<open>
  Claim C5, as the code has it.  Provided the inherited serializer writes none of the nine
  keys, the serialized object has the key \<open>type\<close>, \<open>overwrites\<close>, \<open>inheritedFrom\<close>,
  \<open>implementationOf\<close>, \<open>extendedTypes\<close>, \<open>extendedBy\<close>, \<open>implementedTypes\<close> or
  \<open>implementedBy\<close> exactly when that field is set, and the key \<open>defaultValue\<close> exactly when
  the field is set to a non-empty string; otherwise the key is absent from the object.
\<close>

theorem toObject_keys:
  assumes "base_leaves_keys S st this"
  shows "has_key ''type'' (toObject S st this) = (type (objects st this) \<noteq> None)
       \<and> has_key ''defaultValue'' (toObject S st this)
           = (\<exists>v. defaultValue (objects st this) = Some v \<and> v \<noteq> [])
       \<and> has_key ''overwrites'' (toObject S st this) = (overwrites (objects st this) \<noteq> None)
       \<and> has_key ''inheritedFrom'' (toObject S st this)
           = (inheritedFrom (objects st this) \<noteq> None)
       \<and> has_key ''implementationOf'' (toObject S st this)
           = (implementationOf (objects st this) \<noteq> None)
       \<and> has_key ''extendedTypes'' (toObject S st this)
           = (extendedTypes (objects st this) \<noteq> None)
       \<and> has_key ''extendedBy'' (toObject S st this) = (extendedBy (objects st this) \<noteq> None)
       \<and> has_key ''implementedTypes'' (toObject S st this)
           = (implementedTypes (objects st this) \<noteq> None)
       \<and> has_key ''implementedBy'' (toObject S st this)
           = (implementedBy (objects st this) \<noteq> None)"
proof -
  from assms have base:
    "\<not> has_key ''type'' (super_toObject S st this)"
    "\<not> has_key ''defaultValue'' (super_toObject S st this)"
    "\<not> has_key ''overwrites'' (super_toObject S st this)"
    "\<not> has_key ''inheritedFrom'' (super_toObject S st this)"
    "\<not> has_key ''implementationOf'' (super_toObject S st this)"
    "\<not> has_key ''extendedTypes'' (super_toObject S st this)"
    "\<not> has_key ''extendedBy'' (super_toObject S st this)"
    "\<not> has_key ''implementedTypes'' (super_toObject S st this)"
    "\<not> has_key ''implementedBy'' (super_toObject S st this)"
    by (simp_all add: base_leaves_keys_def declaration_keys_def)
  have 1: "has_key ''type'' (toObject S st this) = (type (objects st this) \<noteq> None)"
    by (simp add: has_key_toObject base)
  have 2: "has_key ''defaultValue'' (toObject S st this)
      = (\<exists>v. defaultValue (objects st this) = Some v \<and> v \<noteq> [])"
    by (simp add: has_key_toObject base)
  have 3: "has_key ''overwrites'' (toObject S st this) = (overwrites (objects st this) \<noteq> None)"
    by (simp add: has_key_toObject base)
  have 4: "has_key ''inheritedFrom'' (toObject S st this)
      = (inheritedFrom (objects st this) \<noteq> None)"
    by (simp add: has_key_toObject base)
  have 5: "has_key ''implementationOf'' (toObject S st this)
      = (implementationOf (objects st this) \<noteq> None)"
    by (simp add: has_key_toObject base)
  have 6: "has_key ''extendedTypes'' (toObject S st this)
      = (extendedTypes (objects st this) \<noteq> None)"
    by (simp add: has_key_toObject base)
  have 7: "has_key ''extendedBy'' (toObject S st this) = (extendedBy (objects st this) \<noteq> None)"
    by (simp add: has_key_toObject base)
  have 8: "has_key ''implementedTypes'' (toObject S st this)
      = (implementedTypes (objects st this) \<noteq> None)"
    by (simp add: has_key_toObject base)
  have 9: "has_key ''implementedBy'' (toObject S st this)
      = (implementedBy (objects st this) \<noteq> None)"
    by (simp add: has_key_toObject base)
  from 1 2 3 4 5 6 7 8 9 show ?thesis by blast
qed

theorem toObject_keys_witness:
  "base_leaves_keys ex_Serializers ex_default_state 1
   \<and> has_key ''type'' (toObject ex_Serializers ex_default_state 1)
   \<and> has_key ''defaultValue'' (toObject ex_Serializers ex_default_state 1)
   \<and> \<not> has_key ''overwrites'' (toObject ex_Serializers ex_default_state 1)"
proof -
  have h: "base_leaves_keys ex_Serializers ex_default_state 1"
    by (simp add: base_leaves_keys_def declaration_keys_def ex_Serializers_def
        spec_Serializers_def spec_Reflection_toObject_def Let_def has_key_if_set)
       (simp add: has_key_def)
  from toObject_keys [OF h] show ?thesis
    using h by (simp add: ex_default_state_def new_Reflection_def)
qed

text \<open>
  Claim C5 as stated fails for \<open>defaultValue\<close>: the field can be set to the empty string,
  which the test \<open>if (this.defaultValue)\<close> takes for unset, and the key is then absent.
\<close>

theorem toObject_empty_default_counterexample:
  "defaultValue (objects ex_default_state 0) = Some []
   \<and> \<not> has_key ''defaultValue'' (toObject ex_Serializers ex_default_state 0)"
proof -
  have d: "defaultValue (objects ex_default_state 0) = Some []"
    by (simp add: ex_default_state_def new_Reflection_def)
  have "\<not> has_key ''defaultValue'' (super_toObject ex_Serializers ex_default_state 0)"
    by (simp add: ex_Serializers_def
        spec_Serializers_def spec_Reflection_toObject_def Let_def has_key_if_set)
       (simp add: has_key_def)
  then have "\<not> has_key ''defaultValue'' (toObject ex_Serializers ex_default_state 0)"
    by (simp add: has_key_toObject d)
  with d show ?thesis by simp
qed

lemma shape_base:
  "get_prop ''name'' (spec_Reflection_toObject nested st r) = Some (JStr (name (objects st r)))"
  "get_prop ''kind'' (spec_Reflection_toObject nested st r) = Some (JEnum (kind (objects st r)))"
  "get_prop ''signatures'' (spec_Reflection_toObject nested st r)
     = map_option (\<lambda>a. JArr (map nested (arrays st a))) (signatures (objects st r))"
  by (simp_all add: spec_Reflection_toObject_def Let_def get_prop_if_set split: option.splits)

text \<open>
  Claim C6.  Serializing every reflection of a graph with \<open>toObject\<close> over the inherited
  serializer of the exposed schema, and reading name, kind and signature count back from
  each serialized object, gives exactly the shape of the original graph: the keys written
  by \<open>DeclarationReflection.toObject\<close> never replace \<open>name\<close>, \<open>kind\<close> or \<open>signatures\<close>.
\<close>

theorem serialization_round_trip:
  "map shape_of_object (serialize_graph (spec_Serializers nested type_toObject) st rs)
     = map (\<lambda>r. Some (shape_of st r)) rs"
proof -
  have "shape_of_object (call_toObject (spec_Serializers nested type_toObject) st r)
      = Some (shape_of st r)" for r
    by (simp add: call_toObject_def shape_of_object_def shape_of_def toObject_other_keys
        declaration_keys_def spec_Serializers_def shape_base split: option.splits)
  then show ?thesis by (simp add: serialize_graph_def)
qed

section \<open>Properties of findReflectionByName\<close>

text \<open>
  The search reads of a graph only the classes, the parents and, when \<open>searchUp\<close> holds, the
  first extended type of each reflection: two graphs that agree on these give the same
  search.
\<close>

lemma extended_head_cases:
  "extended_head a = extended_head b \<Longrightarrow>
     (extendedTypes a = None \<and> extendedTypes b = None)
   \<or> (extendedTypes a = Some [] \<and> extendedTypes b = Some [])
   \<or> (\<exists>p ps q qs. extendedTypes a = Some (p # ps) \<and> extendedTypes b = Some (q # qs)
         \<and> reflection_of p = reflection_of q)"
  by (cases "extendedTypes a"; cases "extendedTypes b")
     (auto simp: extended_head_def split: list.splits)

lemma same_links_False: "same_links su g g' \<Longrightarrow> same_links False g g'"
  by (simp add: same_links_def)

lemma walkTypeParents_same_links:
  assumes "same_links True g g'"
    and "\<And>r ns. call_findReflectionByName n L g' r ns True = call_findReflectionByName n L g r ns True"
  shows "walkTypeParents n L g' c ns True = walkTypeParents n L g c ns True"
proof -
  from assms(1) have "extended_head (g' c) = extended_head (g c)"
    by (simp add: same_links_def)
  from extended_head_cases[OF this] show ?thesis using assms(2)
    by (auto simp del: call_findReflectionByName.simps split: option.splits)
qed

lemma findReflectionByName_same_links:
  "same_links su g g' \<Longrightarrow>
     findReflectionByName n L g' r ns su = findReflectionByName n L g r ns su"
proof (induction n arbitrary: r su ns)
  case 0
  show ?case by simp
next
  case (Suc n)
  have call: "call_findReflectionByName n L g' q ms s = call_findReflectionByName n L g q ms s"
    if "same_links s g g'" for q s ms
    using that Suc.IH[of s q ms] by (simp add: same_links_def)
  have par: "parent (g' r) = parent (g r)"
    using Suc.prems by (simp add: same_links_def)
  show ?case
  proof (cases su)
    case True
    have ex: "(extendedTypes (g' r) = None) = (extendedTypes (g r) = None)"
      using Suc.prems True by (auto simp: same_links_def extended_head_def dest!: spec[of _ r])
    have "walkTypeParents n L g' r ms True = walkTypeParents n L g r ms True" for ms
    proof (rule walkTypeParents_same_links)
      show "same_links True g g'" using Suc.prems True by simp
      show "call_findReflectionByName n L g' q ks True = call_findReflectionByName n L g q ks True"
        for q ks
        using call[of True q ks] Suc.prems True by simp
    qed
    then have w: "walkTypeParents n L g' r ms su = walkTypeParents n L g r ms su" for ms
      using True by simp
    show ?thesis
      unfolding findReflectionByName.simps(2) ex w par call[OF same_links_False[OF Suc.prems]]
      by (rule refl)
  next
    case False
    have nsu: "(su \<and> extendedTypes (g' r) \<noteq> None) = False"
      "(su \<and> extendedTypes (g r) \<noteq> None) = False"
      using False by simp_all
    show ?thesis
      unfolding findReflectionByName.simps(2) nsu if_False par
        call[OF same_links_False[OF Suc.prems]]
      by (rule refl)
  qed
qed

lemma same_links_tail:
  assumes "extendedTypes (g this) = Some (t # ts)"
  shows "same_links su g (g(this := (g this)\<lparr>extendedTypes := Some (t # ts')\<rparr>))"
  using assms by (simp add: same_links_def extended_head_def)

lemma same_links_no_searchUp:
  "same_links False g (\<lambda>r. (g r)\<lparr>extendedTypes := X r\<rparr>)"
  by (simp add: same_links_def)

text \<open>
  The order of the search, case by case.  A child found by \<open>getChildByName\<close> is returned at
  once.  Without a child and without \<open>searchUp\<close>, or when \<open>extendedTypes\<close> is unset, the parent
  is searched (with \<open>names\<close> as \<open>getChildByName\<close> left it), and without \<open>searchUp\<close> no
  \<open>extendedTypes\<close> of the graph is read at all.  With \<open>searchUp\<close> and a first extended type,
  only that entry's reflection is asked: what it finds is returned; when the entry has no
  reflection or nothing is found there, the parent is searched, with \<open>names\<close> as the first
  parent's search left it.  The later entries never matter.  With \<open>searchUp\<close> and the empty
  array the call throws.
\<close>

lemma findReflectionByName_child_first:
  "getChildByName L this names = (Some c, names') \<Longrightarrow>
     findReflectionByName (Suc n) L g this names searchUp = Some (Inr (Some c), names')"
  by simp

lemma findReflectionByName_without_searchUp:
  "getChildByName L this names = (None, names') \<Longrightarrow>
     findReflectionByName (Suc n) L g this names False =
       (case parent (g this) of
          None \<Rightarrow> Some (Inr None, names')
        | Some p \<Rightarrow> call_findReflectionByName n L g p names' False)"
  by (simp del: call_findReflectionByName.simps)

lemma findReflectionByName_extendedTypes_not_read:
  "findReflectionByName m L (\<lambda>r. (g r)\<lparr>extendedTypes := X r\<rparr>) this names False
     = findReflectionByName m L g this names False"
  by (rule findReflectionByName_same_links [OF same_links_no_searchUp])

lemma findReflectionByName_extendedTypes_unset:
  "getChildByName L this names = (None, names') \<Longrightarrow> extendedTypes (g this) = None \<Longrightarrow>
     findReflectionByName (Suc n) L g this names searchUp =
       (case parent (g this) of
          None \<Rightarrow> Some (Inr None, names')
        | Some p \<Rightarrow> call_findReflectionByName n L g p names' False)"
  by (simp del: call_findReflectionByName.simps)

lemma findReflectionByName_first_parent_unresolved:
  "getChildByName L this names = (None, names') \<Longrightarrow>
   extendedTypes (g this) = Some (t # ts) \<Longrightarrow> reflection_of t = None \<Longrightarrow>
     findReflectionByName (Suc n) L g this names True =
       (case parent (g this) of
          None \<Rightarrow> Some (Inr None, names')
        | Some p \<Rightarrow> call_findReflectionByName n L g p names' False)"
  by (simp del: call_findReflectionByName.simps)

lemma findReflectionByName_first_parent_hit:
  "getChildByName L this names = (None, names') \<Longrightarrow>
   extendedTypes (g this) = Some (t # ts) \<Longrightarrow> reflection_of t = Some pr \<Longrightarrow>
   call_findReflectionByName n L g pr names' True = Some (Inr (Some i), names'') \<Longrightarrow>
     findReflectionByName (Suc n) L g this names True = Some (Inr (Some i), names'')"
  by (simp del: call_findReflectionByName.simps)

lemma findReflectionByName_first_parent_miss:
  "getChildByName L this names = (None, names') \<Longrightarrow>
   extendedTypes (g this) = Some (t # ts) \<Longrightarrow> reflection_of t = Some pr \<Longrightarrow>
   call_findReflectionByName n L g pr names' True = Some (Inr None, names'') \<Longrightarrow>
     findReflectionByName (Suc n) L g this names True =
       (case parent (g this) of
          None \<Rightarrow> Some (Inr None, names'')
        | Some p \<Rightarrow> call_findReflectionByName n L g p names'' False)"
  by (simp del: call_findReflectionByName.simps)

lemma findReflectionByName_later_entries_ignored:
  "extendedTypes (g this) = Some (t # ts) \<Longrightarrow>
     findReflectionByName m L (g(this := (g this)\<lparr>extendedTypes := Some (t # ts')\<rparr>))
         r names searchUp
       = findReflectionByName m L g r names searchUp"
  by (rule findReflectionByName_same_links [OF same_links_tail])

lemma findReflectionByName_empty_array:
  "getChildByName L this names = (None, names') \<Longrightarrow> extendedTypes (g this) = Some [] \<Longrightarrow>
     findReflectionByName (Suc n) L g this names True = Some (Inl TypeError, names')"
  by simp

text \<open>
  Claim C7 at the input where the code departs from it.  A class whose \<open>extendedTypes\<close> is
  the empty array passes both tests \<open>if (this.extendedTypes)\<close> and \<open>if (parents)\<close>;
  \<open>parents[0]\<close> is then \<open>undefined\<close> and reading its \<open>reflection\<close> throws, whatever fuel the
  call is given.
\<close>

theorem findReflectionByName_empty_extendedTypes_faults:
  "findReflectionByName_arg (Suc n) ex_Lookup ex_empty_extends 2 (Dotted ''speak'') True
     = Some (Inl TypeError)"
  by (simp add: findReflectionByName_arg_def names_of_def ex_Lookup_def ex_empty_extends_def
      new_Reflection_def)

text \<open>
  Claim C10 at the input where the code departs from it, by the same slip.  For a class
  whose \<open>extendedTypes\<close> is the empty array and a name that no child matches, the search
  with \<open>searchUp\<close> throws instead of falling back to the parent, although the parent's own
  search answers with the class \<open>Animal\<close>.
\<close>

theorem findReflectionByName_empty_extendedTypes_skips_parent:
  "findReflectionByName_arg (Suc n) ex_Lookup ex_empty_extends 2 (Dotted ''Animal'') True
     = Some (Inl TypeError)
   \<and> fst (getChildByName ex_Lookup 2 [''Animal'']) = None
   \<and> parent (ex_empty_extends 2) = Some 0
   \<and> map_option fst (call_findReflectionByName n ex_Lookup ex_empty_extends 0 [''Animal''] False)
       = Some (Inr (Some 1))"
  by (simp add: findReflectionByName_arg_def names_of_def ex_Lookup_def ex_empty_extends_def
      ex_graph_def new_Reflection_def)

text \<open>
  The search on the example project.  The last line shows the shared array at work: the
  first parent's search pops \<open>zzz\<close> off \<open>names\<close> and finds nothing, and the fallback then
  searches the parent for what is left, \<open>Animal\<close>.
\<close>

lemma findReflectionByName_examples:
  "findReflectionByName 2 ex_Lookup ex_graph 2 [''fetch''] True = Some (Inr (Some 6), [''fetch''])"
  "findReflectionByName 2 ex_Lookup ex_graph 2 [''speak''] True = Some (Inr (Some 4), [''speak''])"
  "findReflectionByName 2 ex_Lookup ex_graph 2 [''speak''] False = Some (Inr None, [])"
  "findReflectionByName 3 ex_Lookup ex_graph 2 [''cuddle''] True = Some (Inr None, [])"
  "findReflectionByName 3 ex_Lookup ex_graph 6 [''Animal''] True = Some (Inr (Some 1), [])"
  "findReflectionByName 3 ex_Lookup ex_graph 2 [''Animal'', ''zzz''] True = Some (Inr (Some 1), [])"
  by code_simp+

text \<open>
  The empty array is the only way into a fault: when no \<open>extendedTypes\<close> of the graph is
  empty and the inherited lookup of the other classes does not throw, no call faults,
  whether the first entries are resolved references, unresolved ones or other types.
\<close>

lemma findReflectionByName_no_fault:
  assumes "\<And>r. extendedTypes (g r) \<noteq> Some []"
    and "\<And>r ns. fst (Reflection_findReflectionByName L r ns) \<noteq> Inl TypeError"
  shows "findReflectionByName n L g r ns su \<noteq> Some (Inl e, ns')"
proof (induction n arbitrary: r su ns ns')
  case 0
  show ?case by simp
next
  case (Suc n)
  have call: "call_findReflectionByName n L g q ms s \<noteq> Some (Inl e, ms')" for q s ms ms'
    using Suc.IH[of q ms s ms'] assms(2)[of q ms] by (cases e) (auto simp: prod_eq_iff)
  have walk: "walkTypeParents n L g r ms su \<noteq> Some (Inl e, ms')" for ms ms'
    using assms(1)[of r] call
    by (auto simp del: call_findReflectionByName.simps split: option.splits list.splits)
  show ?case
    using walk call
    by (auto simp del: call_findReflectionByName.simps walkTypeParents.simps
        split: option.splits sum.splits prod.splits)
qed

text \<open>
  On a graph whose parent links and first extended types descend along a rank (no cycle of
  inheritance or ownership), a call returns once the fuel exceeds the receiver's rank.
\<close>

lemma findReflectionByName_returns:
  assumes par: "\<And>r p. parent (g r) = Some p \<Longrightarrow> rank p < rank r"
    and ext: "\<And>r t ts p. extendedTypes (g r) = Some (t # ts) \<Longrightarrow> reflection_of t = Some p
                \<Longrightarrow> rank p < rank r"
  shows "rank r < n \<Longrightarrow> findReflectionByName n L g r ns su \<noteq> None"
proof (induction n arbitrary: r su ns)
  case 0
  then show ?case by simp
next
  case (Suc n)
  have call: "call_findReflectionByName n L g q ms s \<noteq> None" if "rank q < rank r" for q s ms
    using Suc.IH[of q ms s] that Suc.prems by simp
  have walk: "walkTypeParents n L g r ms s \<noteq> None" for ms s
  proof (cases "extendedTypes (g r)")
    case None
    then show ?thesis by simp
  next
    case (Some ps)
    show ?thesis
    proof (cases ps)
      case Nil
      with Some show ?thesis by simp
    next
      case (Cons t ts)
      show ?thesis
      proof (cases "reflection_of t")
        case None
        with \<open>extendedTypes (g r) = Some ps\<close> Cons show ?thesis by simp
      next
        case (Some p)
        from ext[OF \<open>extendedTypes (g r) = Some ps\<close>[unfolded Cons] Some]
        have "rank p < rank r" .
        from call[OF this] \<open>extendedTypes (g r) = Some ps\<close> Cons Some
        show ?thesis by (simp del: call_findReflectionByName.simps)
      qed
    qed
  qed
  obtain c ns1 where gc: "getChildByName L r ns = (c, ns1)"
    by (cases "getChildByName L r ns")
  show ?case
  proof (cases c)
    case (Some x)
    with gc show ?thesis by simp
  next
    case None
    define W where "W = (if su \<and> extendedTypes (g r) \<noteq> None
        then walkTypeParents n L g r ns1 su else Some (Inr None, ns1))"
    have "W \<noteq> None" using walk[of ns1 su]
      by (cases su) (simp_all add: W_def del: walkTypeParents.simps)
    then obtain out ns2 where W: "W = Some (out, ns2)" by (cases W) auto
    have unf: "findReflectionByName (Suc n) L g r ns su =
        (case W of
           None \<Rightarrow> None
         | Some (Inl e, names) \<Rightarrow> Some (Inl e, names)
         | Some (Inr None, names) \<Rightarrow>
             (case parent (g r) of
                None \<Rightarrow> Some (Inr None, names)
              | Some p \<Rightarrow> call_findReflectionByName n L g p names False)
         | Some (Inr (Some i), names) \<Rightarrow> Some (Inr (Some i), names))"
      unfolding W_def findReflectionByName.simps(2) gc None by simp
    show ?thesis
    proof (cases "parent (g r)")
      case None
      then show ?thesis unfolding unf W by (simp split: sum.splits option.splits)
    next
      case (Some p)
      from call[OF par[OF Some]] Some show ?thesis
        unfolding unf W
        by (simp del: call_findReflectionByName.simps split: sum.splits option.splits)
    qed
  qed
qed

section \<open>Properties of onRendererBegin\<close>

lemma index_rows_state:
  "getFullName_reads H \<Longrightarrow> snd (index_rows H st keys rows) = st"
proof (induction keys arbitrary: rows)
  case Nil
  show ?case by simp
next
  case (Cons key keys)
  have q: "b = st" if "getFullName H st p = (a, b)" for p a b
  proof -
    from Cons.prems have "snd (getFullName H st p) = st"
      by (simp add: getFullName_reads_def)
    with that show ?thesis by simp
  qed
  show ?case
    using Cons.IH[OF Cons.prems]
    by (auto simp: Let_def split: option.splits prod.splits dest!: q)
qed

text \<open>
  Claim C8.  Generating the index leaves the graph as it was: the state after
  \<open>onRendererBegin\<close> is the state before it, every field of every reflection included, and
  the only effect is the one file written.  The loop itself writes no field; of the one
  method it calls on a reflection, \<open>getFullName\<close>, it is assumed that it is a query.
\<close>

theorem onRendererBegin_reads_only:
  assumes "getFullName_reads H"
  shows "fst (onRendererBegin H (st, fs) event) = st
       \<and> snd (onRendererBegin H (st, fs) event)
           = fs(path_join H [outputDirectory event, ''assets'', ''js'', ''search.js'']
                  \<mapsto> search_data (stringify H
                        (fst (index_rows H st (project_reflections event) []))))"
  using index_rows_state[OF assms, of st "project_reflections event" "[]"]
  by (cases "index_rows H st (project_reflections event) []")
     (simp add: onRendererBegin_def Let_def)

theorem onRendererBegin_reads_only_witness:
  "getFullName_reads ex_Host
   \<and> fst (onRendererBegin ex_Host (ex_rendered, Map.empty) ex_event) = ex_rendered
   \<and> map fullName (fst (index_rows ex_Host ex_rendered (project_reflections ex_event) []))
       = [''Dog'', ''Dog.bark'']"
proof -
  have h: "getFullName_reads ex_Host"
    by (simp add: getFullName_reads_def ex_Host_def)
  have r: "map fullName (fst (index_rows ex_Host ex_rendered (project_reflections ex_event) []))
       = [''Dog'', ''Dog.bark'']"
    by (simp add: ex_Host_def ex_rendered_def ex_event_def new_Reflection_def no_flags_def Let_def)
  from onRendererBegin_reads_only [OF h] show ?thesis using h r by simp
qed

section \<open>Properties of the identity registry\<close>

lemma allocate_all_ids:
  "allocate_all st rs = (ids, st') \<Longrightarrow>
     ids = [nextId st ..< nextId st + length rs] \<and> nextId st' = nextId st + length rs
     \<and> (\<forall>i < nextId st. objects st' i = objects st i)
     \<and> (\<forall>k < length rs. objects st' (nextId st + k) = (rs ! k)\<lparr>id_r := nextId st + k\<rparr>)"
proof (induction rs arbitrary: st ids st')
  case Nil
  then show ?case by simp
next
  case (Cons r rs)
  obtain ids2 st2 where rest: "allocate_all (snd (allocate st r)) rs = (ids2, st2)"
    by (cases "allocate_all (snd (allocate st r)) rs")
  with Cons.prems have ids: "ids = nextId st # ids2" and st': "st' = st2"
    by (auto simp: allocate_def Let_def split: prod.splits)
  have n1: "nextId (snd (allocate st r)) = Suc (nextId st)"
    by (simp add: allocate_def)
  from Cons.IH[OF rest] n1 have
    a: "ids2 = [Suc (nextId st) ..< Suc (nextId st) + length rs]"
    and b: "nextId st2 = Suc (nextId st) + length rs"
    and c: "\<forall>i < Suc (nextId st). objects st2 i = objects (snd (allocate st r)) i"
    and d: "\<forall>k < length rs. objects st2 (Suc (nextId st) + k) = (rs ! k)\<lparr>id_r := Suc (nextId st) + k\<rparr>"
    by simp_all
  have "[nextId st ..< nextId st + length (r # rs)]
      = nextId st # [Suc (nextId st) ..< Suc (nextId st) + length rs]"
    by (subst upt_rec) simp
  with ids a have e: "ids = [nextId st ..< nextId st + length (r # rs)]"
    by simp
  have f: "\<forall>i < nextId st. objects st' i = objects st i"
    using c st' by (simp add: allocate_def)
  have g: "objects st' (nextId st + k) = ((r # rs) ! k)\<lparr>id_r := nextId st + k\<rparr>"
    if "k < length (r # rs)" for k
  proof (cases k)
    case 0
    then show ?thesis using c st' by (simp add: allocate_def)
  next
    case (Suc j)
    then show ?thesis using d st' that by simp
  qed
  show ?case using e b f g st' by simp
qed

text \<open>
  Claim C3.  The ids given out in one run, starting from a registry whose next id is the
  base, are exactly base, base + 1, ... in creation order: dense, increasing and pairwise
  different; and after the run the i-th reflection created still carries the i-th id, so
  two different reflections never share an id.
\<close>

theorem allocate_ids_unique:
  assumes "allocate_all st rs = (ids, st')"
  shows "ids = [nextId st ..< nextId st + length rs]
       \<and> distinct ids
       \<and> (\<forall>i < length rs. \<forall>j < length rs.
            i \<noteq> j \<longrightarrow> id_r (objects st' (ids ! i)) \<noteq> id_r (objects st' (ids ! j)))
       \<and> (\<forall>i < length rs. id_r (objects st' (ids ! i)) = nextId st + i)"
proof -
  note a = allocate_all_ids[OF assms]
  have ids: "ids = [nextId st ..< nextId st + length rs]" using a by simp
  have idr: "id_r (objects st' (ids ! i)) = nextId st + i" if "i < length rs" for i
    using a that by (simp add: ids)
  show ?thesis using ids idr by simp
qed

theorem allocate_ids_unique_witness:
  "fst (allocate_all ex_state ex_created) = [1, 2]
   \<and> distinct (fst (allocate_all ex_state ex_created))
   \<and> id_r (objects (snd (allocate_all ex_state ex_created)) 2) = 2"
proof -
  have n: "nextId ex_state = 1" "length ex_created = 2"
    by (simp_all add: ex_state_def ex_created_def)
  note T = allocate_ids_unique [OF prod.collapse [symmetric], of ex_state ex_created]
  from T have ids: "fst (allocate_all ex_state ex_created) = [1 ..< 1 + 2]"
    by (simp only: n)
  have u: "[1 ..< 1 + 2] = [1, 2::nat]"
    by (simp add: upt_rec)
  from T have d: "distinct (fst (allocate_all ex_state ex_created))"
    by blast
  from T have "\<forall>i<length ex_created.
      id_r (objects (snd (allocate_all ex_state ex_created))
        (fst (allocate_all ex_state ex_created) ! i)) = nextId ex_state + i"
    by blast
  then have "id_r (objects (snd (allocate_all ex_state ex_created))
        (fst (allocate_all ex_state ex_created) ! 1)) = nextId ex_state + 1"
    by (simp only: n)
  then have "id_r (objects (snd (allocate_all ex_state ex_created)) 2) = 2"
    by (simp add: ids u n numeral_2_eq_2 del: allocate_all.simps)
  with ids u d show ?thesis by (simp del: allocate_all.simps)
qed

section \<open>Accessor merging\<close>

lemmas spec_convert_defs =
  convert_def spec_Factories_def spec_createDeclaration_def spec_createSignature_def
  lookupSymbol_def registerSymbol_def allocate_def append_child_def withScope_def
  update_object_def Let_def

lemma accessor_kind_scope:
  assumes "scope st' = scope st" "kind (objects st' (scope st)) = kind (objects st (scope st))"
  shows "accessor_kind F st' node = accessor_kind F st node"
  using assms by (simp add: accessor_kind_def)

lemma convert_first:
  assumes "symbolOf a = Some s" "lookupSymbol st s = None" "scope st < nextId st"
    and "accessor_kind spec_Factories st a \<noteq> Constant"
    and "convert spec_Factories st a = (d1, st1)"
  shows "d1 = Some (nextId st)" "nextId st1 = nextId st + 2" "scope st1 = scope st"
    "lookupSymbol st1 s = Some (nextId st)"
    "objects st1 (scope st) = (objects st (scope st))
        \<lparr>children := Some ((case children (objects st (scope st)) of None \<Rightarrow> [] | Some cs \<Rightarrow> cs)
                           @ [nextId st])\<rparr>"
    "cls (objects st1 (nextId st)) = DeclarationReflection"
    "cls (objects st1 (nextId st + 1)) = SignatureReflection"
    "kindOf a = GetAccessor \<Longrightarrow> getSignature (objects st1 (nextId st)) = Some (nextId st + 1)"
    "kindOf a \<noteq> GetAccessor \<Longrightarrow> setSignature (objects st1 (nextId st)) = Some (nextId st + 1)"
    "\<And>i. i < nextId st \<Longrightarrow> i \<noteq> scope st \<Longrightarrow> objects st1 i = objects st i"
  using assms
  by (auto simp: spec_convert_defs new_Reflection_def split: if_splits)

lemma convert_second:
  assumes "symbolOf b = Some s" "lookupSymbol st s = Some d" "d < nextId st" "scope st < nextId st"
    and "accessor_kind spec_Factories st b \<noteq> Constant"
    and "convert spec_Factories st b = (d2, st2)"
  shows "d2 = Some d" "nextId st2 = nextId st + 1" "scope st2 = scope st"
    "lookupSymbol st2 s = Some d"
    "cls (objects st2 d) = cls (objects st d)"
    "cls (objects st2 (nextId st)) = SignatureReflection"
    "kindOf b = GetAccessor \<Longrightarrow> getSignature (objects st2 d) = Some (nextId st)
        \<and> setSignature (objects st2 d) = setSignature (objects st d)"
    "kindOf b \<noteq> GetAccessor \<Longrightarrow> setSignature (objects st2 d) = Some (nextId st)
        \<and> getSignature (objects st2 d) = getSignature (objects st d)"
    "\<And>i. i < nextId st \<Longrightarrow> i \<noteq> d \<Longrightarrow> objects st2 i = objects st i"
  using assms
  by (auto simp: spec_convert_defs new_Reflection_def split: if_splits)


text \<open>
  Claim C2, as the code has it.  For a getter and a setter of one symbol, converted in
  either order in one scope, neither of them as a constant, where the symbol was not
  registered before: both conversions return the same declaration, the one created by the
  first; it holds both \<open>getSignature\<close> and \<open>setSignature\<close>; and it is the only declaration
  the pair has created (the other two new objects are the two signatures, and the scope
  has gained exactly one child).
\<close>

theorem accessor_pair_merges:
  assumes kinds: "kindOf a \<in> set supports" "kindOf b \<in> set supports" "kindOf a \<noteq> kindOf b"
    and syms: "symbolOf a = Some s" "symbolOf b = Some s"
    and new: "lookupSymbol st s = None"
    and sc: "scope st < nextId st"
    and plain: "accessor_kind spec_Factories st a \<noteq> Constant"
               "accessor_kind spec_Factories st b \<noteq> Constant"
    and c1: "convert spec_Factories st a = (d1, st1)"
    and c2: "convert spec_Factories st1 b = (d2, st2)"
  shows "d1 = Some (nextId st) \<and> d2 = d1
       \<and> getSignature (objects st2 (nextId st)) \<noteq> None
       \<and> setSignature (objects st2 (nextId st)) \<noteq> None
       \<and> cls (objects st2 (nextId st)) = DeclarationReflection
       \<and> cls (objects st2 (nextId st + 1)) = SignatureReflection
       \<and> cls (objects st2 (nextId st + 2)) = SignatureReflection
       \<and> nextId st2 = nextId st + 3
       \<and> lookupSymbol st2 s = Some (nextId st)
       \<and> children (objects st2 (scope st))
           = Some ((case children (objects st (scope st)) of None \<Rightarrow> [] | Some cs \<Rightarrow> cs)
                   @ [nextId st])"
proof -
  note f = convert_first [OF syms(1) new sc plain(1) c1]
  have k: "accessor_kind spec_Factories st1 b \<noteq> Constant"
    using plain(2) accessor_kind_scope[of st1 st spec_Factories b] f(3) f(5) by simp
  have d: "nextId st < nextId st1" and sc1: "scope st1 < nextId st1"
    using f(2) f(3) sc by simp_all
  note g = convert_second [OF syms(2) f(4) d sc1 k c2]
  have "scope st \<noteq> nextId st" using sc by simp
  then have ch: "objects st2 (scope st) = objects st1 (scope st)"
    using g(9)[of "scope st"] sc f(2) by simp
  have s1: "objects st2 (nextId st + 1) = objects st1 (nextId st + 1)"
    using g(9)[of "nextId st + 1"] f(2) by simp
  have ab: "(kindOf a = GetAccessor \<and> kindOf b \<noteq> GetAccessor)
          \<or> (kindOf a \<noteq> GetAccessor \<and> kindOf b = GetAccessor)"
    using kinds by (auto simp: supports_def)
  have sigs: "getSignature (objects st2 (nextId st)) \<noteq> None
       \<and> setSignature (objects st2 (nextId st)) \<noteq> None"
    using ab f(8) f(9) g(7) g(8) by auto
  show ?thesis
    using f(1) g(1) sigs g(5) f(6) s1 f(7) g(6) f(2) g(2) g(4) ch f(5)
    by (simp add: numeral_3_eq_3)
qed

theorem accessor_pair_merges_witness:
  "kindOf ex_getter \<in> set supports \<and> kindOf ex_setter \<in> set supports
   \<and> kindOf ex_getter \<noteq> kindOf ex_setter
   \<and> symbolOf ex_getter = Some 7 \<and> symbolOf ex_setter = Some 7
   \<and> lookupSymbol ex_state 7 = None \<and> scope ex_state < nextId ex_state
   \<and> accessor_kind spec_Factories ex_state ex_getter \<noteq> Constant
   \<and> accessor_kind spec_Factories ex_state ex_setter \<noteq> Constant
   \<and> fst (convert spec_Factories ex_state ex_getter) = Some 1
   \<and> fst (convert spec_Factories (snd (convert spec_Factories ex_state ex_getter)) ex_setter)
       = Some 1
   \<and> getSignature (objects (snd (convert spec_Factories
         (snd (convert spec_Factories ex_state ex_getter)) ex_setter)) 1) \<noteq> None
   \<and> setSignature (objects (snd (convert spec_Factories
         (snd (convert spec_Factories ex_state ex_getter)) ex_setter)) 1) \<noteq> None
   \<and> children (objects (snd (convert spec_Factories
         (snd (convert spec_Factories ex_state ex_getter)) ex_setter)) 0) = Some [1]"
proof -
  have h: "kindOf ex_getter \<in> set supports" "kindOf ex_setter \<in> set supports"
    "kindOf ex_getter \<noteq> kindOf ex_setter"
    "symbolOf ex_getter = Some 7" "symbolOf ex_setter = Some 7"
    "lookupSymbol ex_state 7 = None" "scope ex_state < nextId ex_state"
    "accessor_kind spec_Factories ex_state ex_getter \<noteq> Constant"
    "accessor_kind spec_Factories ex_state ex_setter \<noteq> Constant"
    by (simp_all add: supports_def ex_getter_def ex_setter_def ex_state_def lookupSymbol_def
        accessor_kind_def spec_Factories_def)
  have v: "nextId ex_state = 1" "scope ex_state = 0" "children (objects ex_state 0) = None"
    by (simp_all add: ex_state_def ex_objects_def new_Reflection_def)
  from accessor_pair_merges [OF h prod.collapse [symmetric] prod.collapse [symmetric]]
  show ?thesis using h by (simp add: v)
qed

text \<open>
  Claim C2 as stated fails when the getter is documented with \<open>@constant\<close> in a class: the
  pair still gives one declaration, but \<open>getSignature\<close> is not set on it.
\<close>

theorem accessor_pair_constant_counterexample:
  "symbolOf ex_constant_getter = symbolOf ex_setter
   \<and> kindOf ex_constant_getter = GetAccessor \<and> kindOf ex_setter = SetAccessor
   \<and> fst (convert spec_Factories ex_state ex_constant_getter) = Some 1
   \<and> fst (convert spec_Factories
            (snd (convert spec_Factories ex_state ex_constant_getter)) ex_setter) = Some 1
   \<and> getSignature (objects (snd (convert spec_Factories
         (snd (convert spec_Factories ex_state ex_constant_getter)) ex_setter)) 1) = None"
  by (simp add: spec_convert_defs accessor_kind_def ex_state_def ex_objects_def
      ex_constant_getter_def ex_setter_def new_Reflection_def ClassOrInterface_def hasTag_def)

section \<open>Properties of the type hierarchy\<close>

lemma layers_chain:
  "filter is_target_layer (layers (chain levels tail)) = filter is_target_layer (layers tail)"
  by (induction levels) (simp_all add: is_target_layer_def)

lemma target_layers:
  "computeTypeHierarchy n g d = Some h \<Longrightarrow>
     filter is_target_layer (layers h) = [target_layer g d]"
  by (auto simp: computeTypeHierarchy_def layers_chain target_layer_def is_target_layer_def)

text \<open>
  Claim C4.  Whenever the resolver has computed and stored the hierarchy of a declaration,
  the stored chain has exactly one layer flagged \<open>isTarget\<close>, and that layer is the one whose
  only type is the reference to the declaration itself.
\<close>

theorem typeHierarchy_one_target:
  assumes "resolveTypeHierarchy n st d = Some st'"
  shows "\<exists>h. typeHierarchy (objects st' d) = Some h
           \<and> filter is_target_layer (layers h) = [target_layer (objects st) d]
           \<and> length (filter is_target_layer (layers h)) = 1
           \<and> map reflection_of (types (target_layer (objects st) d)) = [Some d]"
  using assms
  by (auto simp: resolveTypeHierarchy_def update_object_def target_layers)
     (simp add: target_layer_def)

theorem typeHierarchy_one_target_witness:
  "\<exists>st'. resolveTypeHierarchy 3 ex_resolved 7 = Some st'
     \<and> (\<exists>h. typeHierarchy (objects st' 7) = Some h
           \<and> filter is_target_layer (layers h) = [target_layer (objects ex_resolved) 7]
           \<and> length (layers h) = 3)"
proof -
  have c: "computeTypeHierarchy 3 (objects ex_resolved) 7 =
     Some (Hierarchy [ReferenceType ''Animal'' [] (Some 1), ReferenceType ''Pet'' [] (Some 3)]
       (Some (Hierarchy [ReferenceType ''Dog'' [] (Some 2)]
          (Some (target_layer (objects ex_resolved) 7)) None)) None)"
    by code_simp
  then obtain st' where r: "resolveTypeHierarchy 3 ex_resolved 7 = Some st'"
    by (simp add: resolveTypeHierarchy_def)
  from typeHierarchy_one_target [OF r] obtain h where
    h: "typeHierarchy (objects st' 7) = Some h"
       "filter is_target_layer (layers h) = [target_layer (objects ex_resolved) 7]"
    by blast
  from r c have "typeHierarchy (objects st' 7) =
     Some (Hierarchy [ReferenceType ''Animal'' [] (Some 1), ReferenceType ''Pet'' [] (Some 3)]
       (Some (Hierarchy [ReferenceType ''Dog'' [] (Some 2)]
          (Some (target_layer (objects ex_resolved) 7)) None)) None)"
    by (auto simp: resolveTypeHierarchy_def update_object_def)
  with h have "length (layers h) = 3"
    by (auto simp: target_layer_def)
  with h r show ?thesis by auto
qed

text \<open>
  The walk ends, and the hierarchy is computed, once the fuel exceeds the depth of the
  extended types, on a graph whose \<open>extendedTypes\<close> descend along a rank.
\<close>

lemma ancestor_levels_returns:
  assumes desc: "\<And>r ps t. extendedTypes (g r) = Some ps \<Longrightarrow> t \<in> set ps
                   \<Longrightarrow> depth_of rank t \<le> rank r"
  shows "(\<forall>t \<in> set ts. depth_of rank t < n) \<Longrightarrow> ancestor_levels n g ts \<noteq> None"
proof (induction n arbitrary: ts)
  case 0
  then have "ts = []" by (cases ts) auto
  then show ?case by simp
next
  case (Suc n)
  show ?case
  proof (cases ts)
    case Nil
    then show ?thesis by simp
  next
    case (Cons t ts')
    have "\<forall>u \<in> set (concat (map (extended_of g) ts)). depth_of rank u < n"
    proof
      fix u assume "u \<in> set (concat (map (extended_of g) ts))"
      then obtain v where v: "v \<in> set ts" "u \<in> set (extended_of g v)" by auto
      then obtain r ps where
        r: "reflection_of v = Some r" "extendedTypes (g r) = Some ps" "u \<in> set ps"
        by (cases "reflection_of v"; cases "extendedTypes (g (the (reflection_of v)))")
           (auto simp: extended_of_def)
      from desc[OF r(2) r(3)] have "depth_of rank u \<le> rank r" .
      moreover from Suc.prems v(1) r(1) have "Suc (rank r) < Suc n"
        by (auto simp: depth_of_def)
      ultimately show "depth_of rank u < n" by simp
    qed
    from Suc.IH[OF this] show ?thesis using Cons by auto
  qed
qed

end
